theory Spec2Isabelle
  imports Complex_Main
begin

text \<open>
  A model of the response-acquisition layer of the tutoring chat client:
  \<^verbatim>\<open>mapMessagesToContent\<close> and \<^verbatim>\<open>generateResponse\<close> of
  src/services/geminiService.ts, over the types of src/types.ts.

  The provider call \<^verbatim>\<open>ai.models.generateContent\<close> is a parameter: a function from the
  provider's state and the request to a response or a thrown error, and the next state.
  A run records its provider calls and its waits as a list of events. Strings are lists
  of bytes. The delay, a JavaScript number, is a rational: the values it takes (1000,
  1500, 2250) are exact in both. Console output is not modelled.
\<close>

section \<open>Data model (src/types.ts)\<close>

datatype subject = MATH | PHYSICS | CHEMISTRY | ENGLISH | GENERAL

text \<open>\<^verbatim>\<open>type ThinkingLevel = 'none' | 'moderate' | 'deep'\<close>\<close>

datatype thinkingLevel = LevelNone | LevelModerate | LevelDeep

datatype role = User | Model

record inlineData =
  mimeType :: string
  data :: string

text \<open>
  \<^verbatim>\<open>interface MessagePart { text?: string; inlineData?: {...} }\<close>: both fields are
  optional and independent, so a part may carry both or neither.
\<close>

record messagePart =
  part_text :: "string option"
  part_inlineData :: "inlineData option"

record message =
  msg_role :: role
  msg_parts :: "messagePart list"
  timestamp :: int
  isError :: "bool option"

section \<open>The provider interface (the SDK's request, response and error shapes)\<close>

datatype contentPart = InlinePart inlineData | TextPart string

datatype content = Content (content_role: role) (content_parts: "contentPart list")

datatype tool = GoogleSearch

record requestConfig =
  systemInstruction :: string
  thinkingConfig :: "int option"
  tools :: "tool list option"

record request =
  model :: string
  contents :: "content list"
  config :: requestConfig

text \<open>
  A grounding chunk may carry a web reference; the source reads \<^verbatim>\<open>chunk.web.title\<close> and
  \<^verbatim>\<open>chunk.web.uri\<close> from a value typed \<^verbatim>\<open>any\<close>, so either may be absent.
\<close>

record web =
  title :: "string option"
  uri :: "string option"

record groundingChunk =
  chunk_web :: "web option"

record groundingMetadata =
  groundingChunks :: "groundingChunk list option"

record candidate =
  cand_groundingMetadata :: "groundingMetadata option"

record response =
  resp_text :: "string option"
  candidates :: "candidate list option"

text \<open>
  What the provider call throws: an object whose \<^verbatim>\<open>message\<close> is a string or absent
  (the handler reads it as \<^verbatim>\<open>error.message?.toLowerCase()\<close>).
\<close>

datatype js_error = JsError (err_name: string) (message: "string option")

text \<open>\<^verbatim>\<open>new Error(msg)\<close>\<close>

definition newError :: "string \<Rightarrow> js_error" where
  "newError msg = JsError ''Error'' (Some msg)"

text \<open>
  The provider is the external collaborator \<^verbatim>\<open>ai.models.generateContent\<close>: from its own
  state and a request it returns a response or throws, and moves to a new state.
\<close>

type_synonym 's provider = "'s \<Rightarrow> request \<Rightarrow> (js_error + response) \<times> 's"

text \<open>What a run does that is visible from outside: provider calls and backoff waits, in order.\<close>

datatype event = Call request "js_error + response" | Wait rat

section \<open>String helpers\<close>

fun isPrefixOf :: "string \<Rightarrow> string \<Rightarrow> bool" where
  "isPrefixOf [] s = True"
| "isPrefixOf (p # ps) [] = False"
| "isPrefixOf (p # ps) (c # cs) = (p = c \<and> isPrefixOf ps cs)"

text \<open>\<^verbatim>\<open>s.includes(pat)\<close>\<close>

fun str_includes :: "string \<Rightarrow> string \<Rightarrow> bool" where
  "str_includes [] pat = isPrefixOf pat []"
| "str_includes (c # cs) pat = (isPrefixOf pat (c # cs) \<or> str_includes cs pat)"

text \<open>
  \<^verbatim>\<open>toLowerCase()\<close> on the ASCII letters; strings are byte lists here, and the
  patterns searched for afterwards are ASCII.
\<close>

definition toLowerChar :: "char \<Rightarrow> char" where
  "toLowerChar c =
     (let n = (of_char c :: nat) in if 65 \<le> n \<and> n \<le> 90 then char_of (n + 32) else c)"

definition toLowerCase :: "string \<Rightarrow> string" where
  "toLowerCase s = map toLowerChar s"

text \<open>\<^verbatim>\<open>xs.join(sep)\<close>\<close>

fun join :: "string \<Rightarrow> string list \<Rightarrow> string" where
  "join sep [] = []"
| "join sep [x] = x"
| "join sep (x # y # ys) = x @ sep @ join sep (y # ys)"

text \<open>
  \<^verbatim>\<open>[...new Set(xs)]\<close>: a Set keeps insertion order and ignores a value it already
  holds.
\<close>

definition setAdd :: "'a list \<Rightarrow> 'a \<Rightarrow> 'a list" where
  "setAdd s x = (if x \<in> set s then s else s @ [x])"

definition newSet :: "'a list \<Rightarrow> 'a list" where
  "newSet xs = foldl setAdd [] xs"

text \<open>A template literal renders an absent value as \<^verbatim>\<open>undefined\<close>.\<close>

definition tmpl :: "string option \<Rightarrow> string" where
  "tmpl v = (case v of None \<Rightarrow> ''undefined'' | Some s \<Rightarrow> s)"

section \<open>src/services/geminiService.ts\<close>

subsection \<open>mapMessagesToContent\<close>

definition mapPart :: "messagePart \<Rightarrow> contentPart" where
  "mapPart p =
     (case part_inlineData p of
        Some d \<Rightarrow> InlinePart \<lparr>mimeType = mimeType d, data = data d\<rparr>
      | None \<Rightarrow>
          TextPart (case part_text p of None \<Rightarrow> '''' | Some t \<Rightarrow> if t = '''' then '''' else t))"

definition mapMessagesToContent :: "message list \<Rightarrow> content list" where
  "mapMessagesToContent messages =
     map (\<lambda>msg. Content (msg_role msg) (map mapPart (msg_parts msg))) messages"

subsection \<open>Model selection and request construction\<close>

definition FLASH :: string where
  "FLASH = ''gemini-2.5-flash''"

definition PRO :: string where
  "PRO = ''gemini-3-pro-preview''"

text \<open>The \<^verbatim>\<open>switch (thinkingLevel)\<close>: the pair (modelName, thinkingBudget).\<close>

fun selectModel :: "thinkingLevel \<Rightarrow> string \<times> int" where
  "selectModel LevelDeep = (PRO, 8192)"
| "selectModel LevelModerate = (FLASH, 2048)"
| "selectModel LevelNone = (FLASH, 0)"

definition buildTools :: "bool \<Rightarrow> tool list" where
  "buildTools useSearch = (if useSearch then [] @ [GoogleSearch] else [])"

text \<open>The argument of \<^verbatim>\<open>ai.models.generateContent\<close> inside the loop.\<close>

definition buildRequest ::
  "string \<Rightarrow> int \<Rightarrow> content list \<Rightarrow> string \<Rightarrow> tool list \<Rightarrow> request" where
  "buildRequest modelName thinkingBudget cs instr tls =
     \<lparr>model = modelName,
      contents = cs,
      config = \<lparr>systemInstruction = instr,
                thinkingConfig = (if thinkingBudget > 0 then Some thinkingBudget else None),
                tools = (if length tls > 0 then Some tls else None)\<rparr>\<rparr>"

subsection \<open>Response handling\<close>

definition FALLBACK_TEXT :: string where
  "FALLBACK_TEXT = ''I couldn't generate a text response.''"

text \<open>The bytes of the globe emoji U+1F310 in the header are written out.\<close>

definition SOURCES_HEADER :: string where
  "SOURCES_HEADER =
     ''\<newline>\<newline>---\<newline>### '' @ [CHR 0xF0, CHR 0x9F, CHR 0x8C, CHR 0x90] @ '' Sources\<newline>''"

definition sourceLine :: "web \<Rightarrow> string" where
  "sourceLine w = ''- ['' @ tmpl (title w) @ '']('' @ tmpl (uri w) @ '')''"

text \<open>\<^verbatim>\<open>response.candidates?.[0]?.groundingMetadata?.groundingChunks\<close>\<close>

definition getGroundingChunks :: "response \<Rightarrow> groundingChunk list option" where
  "getGroundingChunks r =
     (case candidates r of
        None \<Rightarrow> None
      | Some [] \<Rightarrow> None
      | Some (c # _) \<Rightarrow>
          (case cand_groundingMetadata c of
             None \<Rightarrow> None
           | Some g \<Rightarrow> groundingChunks g))"

text \<open>The \<^verbatim>\<open>.map(chunk => chunk.web ? line : null).filter(Boolean)\<close> step.\<close>

definition chunkSources :: "groundingChunk list \<Rightarrow> string list" where
  "chunkSources chunks =
     filter (\<lambda>s. s \<noteq> '''')
       (concat (map (\<lambda>chunk. case chunk_web chunk of
                                 Some w \<Rightarrow> [sourceLine w]
                               | None \<Rightarrow> []) chunks))"

definition normalizeResponse :: "response \<Rightarrow> string" where
  "normalizeResponse r =
     (let text0 = (case resp_text r of
                     None \<Rightarrow> FALLBACK_TEXT
                   | Some t \<Rightarrow> if t = '''' then FALLBACK_TEXT else t)
      in case getGroundingChunks r of
           None \<Rightarrow> text0
         | Some chunks \<Rightarrow>
             if length chunks > 0 then
               (let uniqueSources = newSet (chunkSources chunks)
                in if length uniqueSources > 0
                   then text0 @ SOURCES_HEADER @ join ''\<newline>'' uniqueSources
                   else text0)
             else text0)"

subsection \<open>Failure classification\<close>

definition errorMessage :: "js_error \<Rightarrow> string" where
  "errorMessage e = (case message e of None \<Rightarrow> '''' | Some m \<Rightarrow> toLowerCase m)"

definition isRateLimit :: "js_error \<Rightarrow> bool" where
  "isRateLimit e =
     (str_includes (errorMessage e) ''429'' \<or> str_includes (errorMessage e) ''quota''
      \<or> str_includes (errorMessage e) ''limit'')"

definition isServerOverload :: "js_error \<Rightarrow> bool" where
  "isServerOverload e =
     (str_includes (errorMessage e) ''503'' \<or> str_includes (errorMessage e) ''overloaded'')"

definition retryable :: "js_error \<Rightarrow> bool" where
  "retryable e = (isRateLimit e \<or> isServerOverload e)"

subsection \<open>The retry loop\<close>

definition maxAttempts :: nat where
  "maxAttempts = 3"

definition RATE_LIMITED :: js_error where
  "RATE_LIMITED = newError ''RATE_LIMIT_60''"

definition CONNECTION_FAILED :: js_error where
  "CONNECTION_FAILED = newError ''Connection failed.''"

text \<open>
  The variables the loop updates (\<^verbatim>\<open>modelName\<close>, \<^verbatim>\<open>thinkingBudget\<close>, \<^verbatim>\<open>attempts\<close>,
  \<^verbatim>\<open>delay\<close>), the provider's state and the events so far.
\<close>

record 's loop_state =
  modelName :: string
  thinkingBudget :: int
  attempts :: nat
  delay :: rat
  pstate :: 's
  trace :: "event list"

text \<open>
  One pass of \<^verbatim>\<open>while (attempts < maxAttempts)\<close> per unfolding. \<open>Inr\<close> is the returned
  text, \<open>Inl\<close> the thrown error. The two \<^verbatim>\<open>continue\<close> statements are the two recursive
  calls; the \<^verbatim>\<open>throw\<close> after the loop is the last branch.
\<close>

function loop ::
  "'s provider \<Rightarrow> content list \<Rightarrow> string \<Rightarrow> tool list \<Rightarrow> 's loop_state
     \<Rightarrow> (js_error + string) \<times> 's loop_state" where
  "loop prov cs instr tls st =
     (if attempts st < maxAttempts then
        (let req = buildRequest (modelName st) (thinkingBudget st) cs instr tls;
             out = prov (pstate st) req;
             st1 = st\<lparr>attempts := attempts st + 1,
                      pstate := snd out,
                      trace := trace st @ [Call req (fst out)]\<rparr>
         in case fst out of
              Inr resp \<Rightarrow> (Inr (normalizeResponse resp), st1)
            | Inl err \<Rightarrow>
                if (isRateLimit err \<or> isServerOverload err) \<and> modelName st1 = PRO then
                  loop prov cs instr tls
                    (st1\<lparr>modelName := FLASH, thinkingBudget := 0, delay := 1000\<rparr>)
                else if (isRateLimit err \<or> isServerOverload err) \<and> attempts st1 < maxAttempts then
                  loop prov cs instr tls
                    (st1\<lparr>trace := trace st1 @ [Wait (delay st1)],
                         delay := delay st1 * (3 / 2)\<rparr>)
                else if attempts st1 \<ge> maxAttempts \<and> (isRateLimit err \<or> isServerOverload err) then
                  (Inl RATE_LIMITED, st1)
                else (Inl err, st1))
      else (Inl CONNECTION_FAILED, st))"
  by pat_completeness auto
termination
  by (relation "measure (\<lambda>(prov, cs, instr, tls, st). maxAttempts - attempts st)") auto

declare loop.simps [simp del]

subsection \<open>generateResponse\<close>

definition CONFIG_MESSAGE :: string where
  "CONFIG_MESSAGE =
     ''The AI service is not configured correctly. Please set the API Key in your dashboard.''"

text \<open>\<^verbatim>\<open>!apiKey\<close>: the variable is unset or the empty string.\<close>

definition noApiKey :: "string option \<Rightarrow> bool" where
  "noApiKey apiKey = (case apiKey of None \<Rightarrow> True | Some k \<Rightarrow> k = '''')"

record 's run =
  result :: "js_error + string"
  final :: 's
  events :: "event list"

text \<open>
  \<open>apiKey\<close> is \<^verbatim>\<open>process.env.API_KEY\<close>, \<open>instructions\<close> the table
  \<^verbatim>\<open>SYSTEM_INSTRUCTIONS\<close> of src/constants.ts (static prompt strings, one per subject),
  \<open>prov\<close> and \<open>s0\<close> the provider and its state when the call starts.
\<close>

definition generateResponse ::
  "string option \<Rightarrow> (subject \<Rightarrow> string) \<Rightarrow> 's provider \<Rightarrow> 's
     \<Rightarrow> message list \<Rightarrow> subject \<Rightarrow> thinkingLevel \<Rightarrow> bool \<Rightarrow> 's run" where
  "generateResponse apiKey instructions prov s0 history currentSubject level useSearch =
     (if noApiKey apiKey then
        \<lparr>result = Inr CONFIG_MESSAGE, final = s0, events = []\<rparr>
      else
        (let sel = selectModel level;
             cs = mapMessagesToContent history;
             instr = instructions currentSubject;
             tls = buildTools useSearch;
             out = loop prov cs instr tls
                     \<lparr>modelName = fst sel, thinkingBudget = snd sel, attempts = 0,
                      delay = 1000, pstate = s0, trace = []\<rparr>
         in \<lparr>result = fst out, final = pstate (snd out), events = trace (snd out)\<rparr>))"

section \<open>Vocabulary for the properties\<close>

text \<open>The provider calls of a run, and its backoff waits.\<close>

fun calls :: "event list \<Rightarrow> (request \<times> (js_error + response)) list" where
  "calls [] = []"
| "calls (Call req out # es) = (req, out) # calls es"
| "calls (Wait d # es) = calls es"

fun waits :: "event list \<Rightarrow> rat list" where
  "waits [] = []"
| "waits (Call req out # es) = waits es"
| "waits (Wait d # es) = d # waits es"

text \<open>Events that precede a retry: waits, and calls that threw a retryable error.\<close>

fun retriedOnly :: "event list \<Rightarrow> bool" where
  "retriedOnly [] = True"
| "retriedOnly (Wait d # es) = retriedOnly es"
| "retriedOnly (Call req (Inl e) # es) = (retryable e \<and> retriedOnly es)"
| "retriedOnly (Call req (Inr r) # es) = False"

text \<open>The loop variables when \<^verbatim>\<open>generateResponse\<close> enters the loop.\<close>

definition initialState :: "thinkingLevel \<Rightarrow> 's \<Rightarrow> 's loop_state" where
  "initialState level s0 =
     \<lparr>modelName = fst (selectModel level), thinkingBudget = snd (selectModel level),
      attempts = 0, delay = 1000, pstate = s0, trace = []\<rparr>"

text \<open>The loop variables after a provider call, before its result is looked at.\<close>

definition afterCall ::
  "'s provider \<Rightarrow> content list \<Rightarrow> string \<Rightarrow> tool list \<Rightarrow> 's loop_state \<Rightarrow> 's loop_state" where
  "afterCall prov cs instr tls st =
     (let req = buildRequest (modelName st) (thinkingBudget st) cs instr tls
      in st\<lparr>attempts := attempts st + 1,
            pstate := snd (prov (pstate st) req),
            trace := trace st @ [Call req (fst (prov (pstate st) req))]\<rparr>)"

text \<open>The result of the last provider call of a run, when the run ends with a call.\<close>

definition lastCall :: "event list \<Rightarrow> (js_error + response) option" where
  "lastCall es = (case rev es of Call req out # _ \<Rightarrow> Some out | _ \<Rightarrow> None)"

text \<open>
  The three terminal outcomes: the run ends with a provider call, and either that call
  answered and its normalized text is returned (Done), or it threw an error that is not
  retryable and that same error is thrown (Fatal), or it threw a retryable error and the
  distinguished error is thrown (RateLimited).
\<close>

definition terminalOutcome :: "'s run \<Rightarrow> bool" where
  "terminalOutcome r =
     (case lastCall (events r) of
        None \<Rightarrow> False
      | Some (Inr resp) \<Rightarrow> result r = Inr (normalizeResponse resp)
      | Some (Inl e) \<Rightarrow> result r = (if retryable e then Inl RATE_LIMITED else Inl e))"

text \<open>
  What the loop, started in \<open>st\<close>, adds to the trace and how it ends: retried events,
  then one last call that decides the result.
\<close>

definition endsWith :: "'s loop_state \<Rightarrow> (js_error + string) \<times> 's loop_state \<Rightarrow> bool" where
  "endsWith st r =
     (\<exists>pre req out.
        trace (snd r) = trace st @ pre @ [Call req out] \<and> retriedOnly pre \<and>
        attempts (snd r) = attempts st + length (calls (pre @ [Call req out])) \<and>
        attempts (snd r) \<le> maxAttempts \<and>
        (case out of
           Inr resp \<Rightarrow> fst r = Inr (normalizeResponse resp)
         | Inl e \<Rightarrow>
             if retryable e then fst r = Inl RATE_LIMITED \<and> attempts (snd r) = maxAttempts
             else fst r = Inl e))"

text \<open>The web references of a response's grounding chunks, in order.\<close>

definition webRefs :: "response \<Rightarrow> web list" where
  "webRefs r =
     (case getGroundingChunks r of
        None \<Rightarrow> []
      | Some chunks \<Rightarrow>
          concat (map (\<lambda>chunk. case chunk_web chunk of Some w \<Rightarrow> [w] | None \<Rightarrow> []) chunks))"

text \<open>The text before any Sources section: the response's text, or the fallback sentence.\<close>

definition baseText :: "response \<Rightarrow> string" where
  "baseText r =
     (case resp_text r of
        None \<Rightarrow> FALLBACK_TEXT
      | Some t \<Rightarrow> if t = '''' then FALLBACK_TEXT else t)"

text \<open>
  De-duplication as the specification words it: every value once, at the place where it
  was first seen.
\<close>

primrec dedupFirstSeen :: "'a list \<Rightarrow> 'a list" where
  "dedupFirstSeen [] = []"
| "dedupFirstSeen (x # xs) = x # filter (\<lambda>y. y \<noteq> x) (dedupFirstSeen xs)"

subsection \<open>Simulated providers\<close>

text \<open>
  A provider that answers its n-th call with the n-th entry of a script; its state is the
  number of calls it has received.
\<close>

definition scripted :: "(js_error + response) list \<Rightarrow> nat provider" where
  "scripted script n req =
     (if n < length script then script ! n
      else Inl (JsError ''Error'' (Some ''script exhausted'')),
      n + 1)"

text \<open>A provider that throws the same error at every call, and counts its calls.\<close>

definition alwaysFailing :: "js_error \<Rightarrow> nat provider" where
  "alwaysFailing e n req = (Inl e, n + 1)"

definition err503 :: js_error where
  "err503 = JsError ''ApiError'' (Some ''503 Service Unavailable'')"

definition err429 :: js_error where
  "err429 = JsError ''ApiError'' (Some ''429 Too Many Requests'')"

definition err400 :: js_error where
  "err400 = JsError ''ApiError'' (Some ''400 Bad Request'')"

definition okResponse :: response where
  "okResponse = \<lparr>resp_text = Some ''ok'', candidates = None\<rparr>"

definition emptyResponse :: response where
  "emptyResponse = \<lparr>resp_text = Some [], candidates = None\<rparr>"

definition withChunks :: "string \<Rightarrow> groundingChunk list \<Rightarrow> response" where
  "withChunks t chunks =
     \<lparr>resp_text = Some t,
      candidates = Some [\<lparr>cand_groundingMetadata = Some \<lparr>groundingChunks = Some chunks\<rparr>\<rparr>]\<rparr>"

definition webChunk :: "string \<Rightarrow> string \<Rightarrow> groundingChunk" where
  "webChunk t u = \<lparr>chunk_web = Some \<lparr>title = Some t, uri = Some u\<rparr>\<rparr>"

definition noInstructions :: "subject \<Rightarrow> string" where
  "noInstructions s = []"

section \<open>The loop, one pass at a time\<close>

lemma loop_step:
  assumes "attempts st < maxAttempts"
  shows "loop prov cs instr tls st =
     (case fst (prov (pstate st) (buildRequest (modelName st) (thinkingBudget st) cs instr tls)) of
        Inr resp \<Rightarrow> (Inr (normalizeResponse resp), afterCall prov cs instr tls st)
      | Inl err \<Rightarrow>
          if retryable err \<and> modelName st = PRO then
            loop prov cs instr tls
              ((afterCall prov cs instr tls st)\<lparr>modelName := FLASH, thinkingBudget := 0, delay := 1000\<rparr>)
          else if retryable err \<and> attempts st + 1 < maxAttempts then
            loop prov cs instr tls
              ((afterCall prov cs instr tls st)\<lparr>trace := trace (afterCall prov cs instr tls st) @ [Wait (delay st)],
                   delay := delay st * (3 / 2)\<rparr>)
          else if retryable err then (Inl RATE_LIMITED, afterCall prov cs instr tls st)
          else (Inl err, afterCall prov cs instr tls st))"
  using assms
  by (subst loop.simps) (auto simp: afterCall_def Let_def retryable_def split: sum.splits)

lemma loop_exit:
  "\<not> attempts st < maxAttempts \<Longrightarrow> loop prov cs instr tls st = (Inl CONNECTION_FAILED, st)"
  by (subst loop.simps) simp

lemma generateResponse_loop:
  "\<not> noApiKey apiKey \<Longrightarrow>
   generateResponse apiKey instructions prov s0 history currentSubject level useSearch =
     (let out = loop prov (mapMessagesToContent history) (instructions currentSubject)
                  (buildTools useSearch) (initialState level s0)
      in \<lparr>result = fst out, final = pstate (snd out), events = trace (snd out)\<rparr>)"
  by (simp add: generateResponse_def initialState_def Let_def)


lemma calls_append: "calls (xs @ ys) = calls xs @ calls ys"
  by (induction xs rule: calls.induct) auto

lemma retriedOnly_append: "retriedOnly (xs @ ys) = (retriedOnly xs \<and> retriedOnly ys)"
  by (induction xs rule: retriedOnly.induct) auto

lemma endsWith_extend:
  assumes "endsWith st' r" "trace st' = trace st @ new" "retriedOnly new"
    "attempts st' = attempts st + length (calls new)"
  shows "endsWith st r"
proof -
  from assms(1) obtain pre req out where h:
    "trace (snd r) = trace st' @ pre @ [Call req out]" "retriedOnly pre"
    "attempts (snd r) = attempts st' + length (calls (pre @ [Call req out]))"
    "attempts (snd r) \<le> maxAttempts"
    "(case out of
           Inr resp \<Rightarrow> fst r = Inr (normalizeResponse resp)
         | Inl e \<Rightarrow> if retryable e then fst r = Inl RATE_LIMITED \<and> attempts (snd r) = maxAttempts
                    else fst r = Inl e)"
    unfolding endsWith_def by blast
  have "trace (snd r) = trace st @ (new @ pre) @ [Call req out]"
    using h(1) assms(2) by simp
  moreover have "retriedOnly (new @ pre)"
    using h(2) assms(3) by (simp add: retriedOnly_append)
  moreover have "attempts (snd r) = attempts st + length (calls ((new @ pre) @ [Call req out]))"
    using h(3) assms(4) by (simp add: calls_append)
  ultimately show ?thesis
    unfolding endsWith_def using h(4,5) by blast
qed

lemma loop_endsWith:
  assumes "attempts st < maxAttempts" "modelName st = PRO \<longrightarrow> attempts st + 1 < maxAttempts"
  shows "endsWith st (loop prov cs instr tls st)"
  using assms
proof (induction "maxAttempts - attempts st" arbitrary: st)
  case 0
  then show ?case by simp
next
  case (Suc n)
  let ?req = "buildRequest (modelName st) (thinkingBudget st) cs instr tls"
  let ?out = "fst (prov (pstate st) ?req)"
  let ?st1 = "afterCall prov cs instr tls st"
  have tr1: "trace ?st1 = trace st @ [Call ?req ?out]" and at1: "attempts ?st1 = attempts st + 1"
    and mn1: "modelName ?st1 = modelName st"
    by (simp_all add: afterCall_def Let_def)
  show ?case
  proof (cases ?out)
    case (Inr resp)
    then have "loop prov cs instr tls st = (Inr (normalizeResponse resp), ?st1)"
      using Suc.prems(1) by (simp add: loop_step)
    then show ?thesis
      unfolding endsWith_def using tr1 at1 Inr Suc.prems(1)
      by (intro exI[of _ "[]"] exI[of _ ?req] exI[of _ ?out]) simp
  next
    case (Inl err)
    consider (down) "retryable err" "modelName st = PRO"
      | (backoff) "retryable err" "modelName st \<noteq> PRO" "attempts st + 1 < maxAttempts"
      | (limit) "retryable err" "modelName st \<noteq> PRO" "\<not> attempts st + 1 < maxAttempts"
      | (fatal) "\<not> retryable err"
      by blast
    then show ?thesis
    proof cases
      case down
      let ?st2 = "?st1\<lparr>modelName := FLASH, thinkingBudget := 0, delay := 1000\<rparr>"
      have eq: "loop prov cs instr tls st = loop prov cs instr tls ?st2"
        using Suc.prems(1) Inl down by (simp add: loop_step)
      have lt: "attempts ?st2 < maxAttempts"
        using Suc.prems(2) down at1 by simp
      have "FLASH \<noteq> PRO" by (simp add: FLASH_def PRO_def)
      then have "endsWith ?st2 (loop prov cs instr tls ?st2)"
        using Suc.hyps(2) lt at1 by (intro Suc.hyps(1)) auto
      then have "endsWith st (loop prov cs instr tls ?st2)"
        by (rule endsWith_extend[where new = "[Call ?req ?out]"]) (use tr1 at1 Inl down in simp_all)
      then show ?thesis using eq by simp
    next
      case backoff
      let ?st2 = "?st1\<lparr>trace := trace ?st1 @ [Wait (delay st)], delay := delay st * (3 / 2)\<rparr>"
      have eq: "loop prov cs instr tls st = loop prov cs instr tls ?st2"
        using Suc.prems(1) Inl backoff by (simp add: loop_step)
      have lt: "attempts ?st2 < maxAttempts"
        using backoff at1 by simp
      have "endsWith ?st2 (loop prov cs instr tls ?st2)"
        using Suc.hyps(2) lt at1 mn1 backoff by (intro Suc.hyps(1)) auto
      then have "endsWith st (loop prov cs instr tls ?st2)"
        by (rule endsWith_extend[where new = "[Call ?req ?out, Wait (delay st)]"])
          (use tr1 at1 Inl backoff in simp_all)
      then show ?thesis using eq by simp
    next
      case limit
      then have "loop prov cs instr tls st = (Inl RATE_LIMITED, ?st1)"
        using Suc.prems(1) Inl by (simp add: loop_step)
      moreover have "attempts ?st1 = maxAttempts"
        using limit Suc.prems(1) at1 by simp
      ultimately show ?thesis
        unfolding endsWith_def using tr1 at1 Inl limit
        by (intro exI[of _ "[]"] exI[of _ ?req] exI[of _ ?out]) simp
    next
      case fatal
      then have "loop prov cs instr tls st = (Inl err, ?st1)"
        using Suc.prems(1) Inl by (simp add: loop_step)
      then show ?thesis
        unfolding endsWith_def using tr1 at1 Inl fatal Suc.prems(1)
        by (intro exI[of _ "[]"] exI[of _ ?req] exI[of _ ?out]) simp
    qed
  qed
qed

section \<open>The whole run\<close>

lemma lastCall_snoc: "lastCall (pre @ [Call req out]) = Some out"
  by (simp add: lastCall_def)

lemma initialState_ok:
  "attempts (initialState level s0) < maxAttempts"
  "modelName (initialState level s0) = PRO \<longrightarrow> attempts (initialState level s0) + 1 < maxAttempts"
  "trace (initialState level s0) = []"
  "attempts (initialState level s0) = 0"
  by (simp_all add: initialState_def maxAttempts_def)

text \<open>
  With a key, a run is a sequence of retried events followed by one last provider call,
  and that call decides the result.
\<close>

lemma generateResponse_endsWith:
  assumes "\<not> noApiKey apiKey"
  shows "\<exists>pre req out.
           events (generateResponse apiKey instructions prov s0 history currentSubject level useSearch)
             = pre @ [Call req out] \<and> retriedOnly pre \<and>
           length (calls (pre @ [Call req out])) \<le> maxAttempts \<and>
           (case out of
              Inr resp \<Rightarrow>
                result (generateResponse apiKey instructions prov s0 history currentSubject level useSearch)
                  = Inr (normalizeResponse resp)
            | Inl e \<Rightarrow>
                if retryable e then
                  result (generateResponse apiKey instructions prov s0 history currentSubject level useSearch)
                    = Inl RATE_LIMITED \<and> length (calls (pre @ [Call req out])) = maxAttempts
                else
                  result (generateResponse apiKey instructions prov s0 history currentSubject level useSearch)
                    = Inl e)"
proof -
  let ?st = "initialState level s0 :: 'a loop_state"
  let ?out = "loop prov (mapMessagesToContent history) (instructions currentSubject)
                (buildTools useSearch) ?st"
  let ?r = "generateResponse apiKey instructions prov s0 history currentSubject level useSearch"
  have r: "result ?r = fst ?out" "events ?r = trace (snd ?out)"
    by (simp_all add: generateResponse_loop[OF assms] Let_def)
  have "endsWith ?st ?out"
    by (rule loop_endsWith) (rule initialState_ok)+
  then obtain pre req out where h:
    "trace (snd ?out) = trace ?st @ pre @ [Call req out]" "retriedOnly pre"
    "attempts (snd ?out) = attempts ?st + length (calls (pre @ [Call req out]))"
    "attempts (snd ?out) \<le> maxAttempts"
    "(case out of
        Inr resp \<Rightarrow> fst ?out = Inr (normalizeResponse resp)
      | Inl e \<Rightarrow>
          if retryable e then fst ?out = Inl RATE_LIMITED \<and> attempts (snd ?out) = maxAttempts
          else fst ?out = Inl e)"
    unfolding endsWith_def by blast
  have n: "attempts (snd ?out) = length (calls (pre @ [Call req out]))"
    using h(3) by (simp add: initialState_ok)
  have "events ?r = pre @ [Call req out]"
    using h(1) r(2) by (simp add: initialState_ok)
  moreover have "length (calls (pre @ [Call req out])) \<le> maxAttempts"
    using h(4) n by simp
  moreover have "(case out of
              Inr resp \<Rightarrow> result ?r = Inr (normalizeResponse resp)
            | Inl e \<Rightarrow>
                if retryable e then
                  result ?r = Inl RATE_LIMITED \<and> length (calls (pre @ [Call req out])) = maxAttempts
                else result ?r = Inl e)"
    using h(5) n r(1) by (auto split: sum.splits if_splits)
  ultimately show ?thesis using h(2) by blast
qed

section \<open>Terminal outcomes\<close>

text \<open>
  C1, as the code has it: when an API key is configured, every run of
  \<^verbatim>\<open>generateResponse\<close> ends with a provider call that decides the outcome, which is
  exactly one of: the normalized text of that call's response is returned (Done); the
  error that call threw is not retryable and is thrown as it is (Fatal); that call threw
  a retryable error and the distinguished error \<^verbatim>\<open>RATE_LIMIT_60\<close> is thrown
  (RateLimited). Every event before the last call is a wait or a call that threw a
  retryable error and was retried, so no failure is swallowed, and there are at most
  \<open>maxAttempts\<close> calls. The \<^verbatim>\<open>Connection failed.\<close> throw after the loop is never
  reached: a run ends with that error only when the provider itself threw it.
\<close>

theorem generateResponse_terminal_outcomes:
  assumes "\<not> noApiKey apiKey"
  shows "terminalOutcome (generateResponse apiKey instructions prov s0 history currentSubject level useSearch)
         \<and> retriedOnly (butlast (events (generateResponse apiKey instructions prov s0 history currentSubject level useSearch)))
         \<and> length (calls (events (generateResponse apiKey instructions prov s0 history currentSubject level useSearch))) \<le> maxAttempts
         \<and> (result (generateResponse apiKey instructions prov s0 history currentSubject level useSearch) = Inl CONNECTION_FAILED
              \<longrightarrow> lastCall (events (generateResponse apiKey instructions prov s0 history currentSubject level useSearch))
                    = Some (Inl CONNECTION_FAILED))"
proof -
  let ?r = "generateResponse apiKey instructions prov s0 history currentSubject level useSearch"
  from generateResponse_endsWith[OF assms, of instructions prov s0 history currentSubject level useSearch]
  obtain pre req out where h: "events ?r = pre @ [Call req out]" "retriedOnly pre"
    "length (calls (pre @ [Call req out])) \<le> maxAttempts"
    "(case out of
              Inr resp \<Rightarrow> result ?r = Inr (normalizeResponse resp)
            | Inl e \<Rightarrow>
                if retryable e then result ?r = Inl RATE_LIMITED \<and> length (calls (pre @ [Call req out])) = maxAttempts
                else result ?r = Inl e)"
    by blast
  have "terminalOutcome ?r"
    using h(1,4) by (auto simp: terminalOutcome_def lastCall_snoc split: sum.splits if_splits)
  moreover have "retriedOnly (butlast (events ?r))"
    using h(1,2) by simp
  moreover have "length (calls (events ?r)) \<le> maxAttempts"
    using h(1,3) by simp
  moreover have "result ?r = Inl CONNECTION_FAILED \<longrightarrow> lastCall (events ?r) = Some (Inl CONNECTION_FAILED)"
    using h(1,4)
    by (auto simp: lastCall_snoc RATE_LIMITED_def CONNECTION_FAILED_def newError_def
        split: sum.splits if_splits)
  ultimately show ?thesis by blast
qed

theorem generateResponse_terminal_outcomes_witness:
  "\<not> noApiKey (Some ''key'')
   \<and> terminalOutcome (generateResponse (Some ''key'') noInstructions (alwaysFailing err503) 0 [] MATH LevelNone False)"
proof -
  have h: "\<not> noApiKey (Some ''key'')" by (simp add: noApiKey_def)
  from generateResponse_terminal_outcomes[OF h, of noInstructions "alwaysFailing err503" 0 "[]" MATH LevelNone False]
  show ?thesis using h by blast
qed

text \<open>
  Without a key the run makes no provider call and returns the configuration message: it
  is none of the three outcomes.
\<close>

theorem generateResponse_no_key_not_terminal:
  "\<not> terminalOutcome (generateResponse None noInstructions (alwaysFailing err503) 0 [] MATH LevelNone False)"
  by (simp add: generateResponse_def noApiKey_def terminalOutcome_def lastCall_def)

section \<open>Missing API key\<close>

text \<open>
  C2, as the code has it: when no API key is configured (the variable is unset or empty),
  \<^verbatim>\<open>generateResponse\<close> returns the fixed configuration message as its normal result,
  issues no provider request and leaves the provider's state (its call counter) as it
  was.
\<close>

theorem generateResponse_no_key:
  assumes "noApiKey apiKey"
  shows "generateResponse apiKey instructions prov s0 history currentSubject level useSearch
           = \<lparr>result = Inr CONFIG_MESSAGE, final = s0, events = []\<rparr>"
  using assms by (simp add: generateResponse_def)

theorem generateResponse_no_key_witness:
  "noApiKey None \<and>
   generateResponse None noInstructions (scripted [Inr okResponse]) 0 [] MATH LevelDeep True
     = \<lparr>result = Inr CONFIG_MESSAGE, final = 0, events = []\<rparr>"
proof -
  have h: "noApiKey None" by (simp add: noApiKey_def)
  from generateResponse_no_key[OF h, of noInstructions "scripted [Inr okResponse]" 0 "[]" MATH LevelDeep True]
  show ?thesis using h by simp
qed

text \<open>The specification asks for a failure; the run without a key ends in a normal return.\<close>

theorem generateResponse_no_key_not_thrown:
  "\<not> isl (result (generateResponse None noInstructions (scripted [Inr okResponse]) 0 [] MATH LevelDeep True))"
  by (simp add: generateResponse_def noApiKey_def)

section \<open>Retry with backoff on the fast tier\<close>

lemma retryable_err503: "retryable err503"
  by code_simp

lemma retryable_err429: "retryable err429"
  by code_simp

lemma not_retryable_err400: "\<not> retryable err400"
  by code_simp

lemma FLASH_neq_PRO: "FLASH \<noteq> PRO"
  by (simp add: FLASH_def PRO_def)

text \<open>
  C3: with an API key, a thinking level that selects the fast model, and a provider that
  throws a retryable error at every call, the run is exactly: call, wait 1000 ms, call,
  wait 1500 ms, call; three attempts, and the distinguished error \<^verbatim>\<open>RATE_LIMIT_60\<close>
  is thrown instead of the provider's error.
\<close>

theorem always_retryable_on_fast_tier:
  assumes key: "\<not> noApiKey apiKey"
    and fast: "level \<noteq> LevelDeep"
    and fails: "\<forall>s req. \<exists>e. fst (prov s req) = Inl e \<and> retryable e"
  shows "\<exists>e1 e2 e3 req.
           req = buildRequest FLASH (snd (selectModel level)) (mapMessagesToContent history)
                   (instructions currentSubject) (buildTools useSearch) \<and>
           events (generateResponse apiKey instructions prov init history currentSubject level useSearch)
             = [Call req (Inl e1), Wait 1000, Call req (Inl e2), Wait 1500, Call req (Inl e3)] \<and>
           retryable e1 \<and> retryable e2 \<and> retryable e3 \<and>
           length (calls (events (generateResponse apiKey instructions prov init history currentSubject level useSearch))) = 3 \<and>
           waits (events (generateResponse apiKey instructions prov init history currentSubject level useSearch)) = [1000, 1500] \<and>
           result (generateResponse apiKey instructions prov init history currentSubject level useSearch)
             = Inl RATE_LIMITED"
proof -
  let ?cs = "mapMessagesToContent history"
  let ?instr = "instructions currentSubject"
  let ?tls = "buildTools useSearch"
  let ?req = "buildRequest FLASH (snd (selectModel level)) ?cs ?instr ?tls"
  let ?st0 = "initialState level init :: 'a loop_state"
  have m0: "fst (selectModel level) = FLASH"
    using fast by (cases level) simp_all
  have req0: "buildRequest (modelName ?st0) (thinkingBudget ?st0) ?cs ?instr ?tls = ?req"
    by (simp add: initialState_def m0)
  obtain e1 where e1: "fst (prov init ?req) = Inl e1" "retryable e1"
    using fails by blast
  let ?s1 = "snd (prov init ?req)"
  obtain e2 where e2: "fst (prov ?s1 ?req) = Inl e2" "retryable e2"
    using fails by blast
  let ?s2 = "snd (prov ?s1 ?req)"
  obtain e3 where e3: "fst (prov ?s2 ?req) = Inl e3" "retryable e3"
    using fails by blast
  let ?s3 = "snd (prov ?s2 ?req)"
  let ?st1 = "\<lparr>modelName = FLASH, thinkingBudget = snd (selectModel level), attempts = Suc 0,
               delay = 1500, pstate = ?s1, trace = [Call ?req (Inl e1), Wait 1000]\<rparr>"
  let ?st2 = "\<lparr>modelName = FLASH, thinkingBudget = snd (selectModel level), attempts = Suc (Suc 0),
               delay = 2250, pstate = ?s2,
               trace = [Call ?req (Inl e1), Wait 1000, Call ?req (Inl e2), Wait 1500]\<rparr>"
  let ?st3 = "\<lparr>modelName = FLASH, thinkingBudget = snd (selectModel level), attempts = Suc (Suc (Suc 0)),
               delay = 2250, pstate = ?s3,
               trace = [Call ?req (Inl e1), Wait 1000, Call ?req (Inl e2), Wait 1500,
                        Call ?req (Inl e3)]\<rparr>"
  have step1: "loop prov ?cs ?instr ?tls ?st0 = loop prov ?cs ?instr ?tls ?st1"
    using e1 FLASH_neq_PRO
    by (subst loop_step)
      (simp_all add: initialState_def m0 afterCall_def maxAttempts_def Let_def)
  have step2: "loop prov ?cs ?instr ?tls ?st1 = loop prov ?cs ?instr ?tls ?st2"
    using e2 FLASH_neq_PRO
    by (subst loop_step) (simp_all add: afterCall_def maxAttempts_def Let_def)
  have step3: "loop prov ?cs ?instr ?tls ?st2 = (Inl RATE_LIMITED, ?st3)"
    using e3 FLASH_neq_PRO
    by (subst loop_step) (simp_all add: afterCall_def maxAttempts_def Let_def)
  have run: "generateResponse apiKey instructions prov init history currentSubject level useSearch
      = \<lparr>result = Inl RATE_LIMITED, final = ?s3,
         events = [Call ?req (Inl e1), Wait 1000, Call ?req (Inl e2), Wait 1500, Call ?req (Inl e3)]\<rparr>"
    by (simp add: generateResponse_loop[OF key] step1 step2 step3)
  show ?thesis
    using e1(2) e2(2) e3(2) by (simp add: run)
qed

theorem always_retryable_on_fast_tier_witness:
  "\<not> noApiKey (Some ''key'') \<and> LevelModerate \<noteq> LevelDeep \<and>
   (\<forall>s req. \<exists>e. fst (alwaysFailing err503 s req) = Inl e \<and> retryable e) \<and>
   length (calls (events (generateResponse (Some ''key'') noInstructions (alwaysFailing err503) 0 [] MATH LevelModerate False))) = 3 \<and>
   waits (events (generateResponse (Some ''key'') noInstructions (alwaysFailing err503) 0 [] MATH LevelModerate False)) = [1000, 1500] \<and>
   result (generateResponse (Some ''key'') noInstructions (alwaysFailing err503) 0 [] MATH LevelModerate False)
     = Inl RATE_LIMITED"
proof -
  have h1: "\<not> noApiKey (Some ''key'')" by (simp add: noApiKey_def)
  have h2: "LevelModerate \<noteq> LevelDeep" by simp
  have h3: "\<forall>s req. \<exists>e. fst (alwaysFailing err503 s req) = Inl e \<and> retryable e"
    by (simp add: alwaysFailing_def retryable_err503)
  from always_retryable_on_fast_tier[where instructions = noInstructions and init = 0
      and history = "[]" and currentSubject = MATH and useSearch = False, OF h1 h2 h3]
  show ?thesis using h1 h3 by blast
qed

section \<open>Downgrade from the premium model\<close>

lemma retriedOnly_mid: "retriedOnly (xs @ Call req (Inl e) # ys) \<Longrightarrow> retryable e"
  by (simp add: retriedOnly_append)

text \<open>
  C4: a retryable failure while the premium model is selected makes the loop continue at
  once with the fast model, reasoning budget 0 and delay 1000, whatever the delay was
  (first conjunct, for any loop state), with no wait in between. For
  \<^verbatim>\<open>generateResponse\<close> at level deep whose first call throws a retryable error: the run
  is the loop's run from that downgraded state with one attempt used; its second event is
  a call with the fast model and no reasoning budget; and if that call answers, the run
  is exactly these two calls (one downgrade) and returns the normalized text.
\<close>

theorem downgrade_on_premium:
  fixes prov :: "'s provider"
  assumes key: "\<not> noApiKey apiKey"
    and first: "prov init (buildRequest PRO 8192 (mapMessagesToContent history)
                  (instructions currentSubject) (buildTools useSearch)) = (Inl e, mid)"
    and retry: "retryable e"
  shows "(\<forall>st cs instr tls e'.
            attempts st < maxAttempts \<and> modelName st = PRO \<and> retryable e' \<and>
            fst (prov (pstate st) (buildRequest (modelName st) (thinkingBudget st) cs instr tls)) = Inl e'
            \<longrightarrow> loop prov cs instr tls st
                  = loop prov cs instr tls
                      ((afterCall prov cs instr tls st)
                         \<lparr>modelName := FLASH, thinkingBudget := 0, delay := 1000\<rparr>))
       \<and> generateResponse apiKey instructions prov init history currentSubject LevelDeep useSearch
           = (let out = loop prov (mapMessagesToContent history) (instructions currentSubject)
                          (buildTools useSearch)
                          \<lparr>modelName = FLASH, thinkingBudget = 0, attempts = 1, delay = 1000,
                           pstate = mid,
                           trace = [Call (buildRequest PRO 8192 (mapMessagesToContent history)
                                      (instructions currentSubject) (buildTools useSearch)) (Inl e)]\<rparr>
              in \<lparr>result = fst out, final = pstate (snd out), events = trace (snd out)\<rparr>)
       \<and> (\<exists>rest.
            events (generateResponse apiKey instructions prov init history currentSubject LevelDeep useSearch)
              = Call (buildRequest PRO 8192 (mapMessagesToContent history)
                       (instructions currentSubject) (buildTools useSearch)) (Inl e)
                # Call (buildRequest FLASH 0 (mapMessagesToContent history)
                         (instructions currentSubject) (buildTools useSearch))
                    (fst (prov mid (buildRequest FLASH 0 (mapMessagesToContent history)
                                     (instructions currentSubject) (buildTools useSearch))))
                # rest)
       \<and> (\<forall>resp s2.
            prov mid (buildRequest FLASH 0 (mapMessagesToContent history)
                       (instructions currentSubject) (buildTools useSearch)) = (Inr resp, s2)
            \<longrightarrow> generateResponse apiKey instructions prov init history currentSubject LevelDeep useSearch
                  = \<lparr>result = Inr (normalizeResponse resp), final = s2,
                     events = [Call (buildRequest PRO 8192 (mapMessagesToContent history)
                                  (instructions currentSubject) (buildTools useSearch)) (Inl e),
                               Call (buildRequest FLASH 0 (mapMessagesToContent history)
                                  (instructions currentSubject) (buildTools useSearch)) (Inr resp)]\<rparr>)"
proof -
  let ?cs = "mapMessagesToContent history"
  let ?instr = "instructions currentSubject"
  let ?tls = "buildTools useSearch"
  let ?reqPro = "buildRequest PRO 8192 ?cs ?instr ?tls"
  let ?reqFlash = "buildRequest FLASH 0 ?cs ?instr ?tls"
  let ?st0 = "initialState LevelDeep init :: 's loop_state"
  let ?st1 = "\<lparr>modelName = FLASH, thinkingBudget = 0, attempts = 1, delay = 1000,
               pstate = mid, trace = [Call ?reqPro (Inl e)]\<rparr>"
  let ?r = "generateResponse apiKey instructions prov init history currentSubject LevelDeep useSearch"
  have general: "\<forall>st cs instr tls e'.
            attempts st < maxAttempts \<and> modelName st = PRO \<and> retryable e' \<and>
            fst (prov (pstate st) (buildRequest (modelName st) (thinkingBudget st) cs instr tls)) = Inl e'
            \<longrightarrow> loop prov cs instr tls st
                  = loop prov cs instr tls
                      ((afterCall prov cs instr tls st)
                         \<lparr>modelName := FLASH, thinkingBudget := 0, delay := 1000\<rparr>)"
    by (auto simp: loop_step)
  have st1: "(afterCall prov ?cs ?instr ?tls ?st0)\<lparr>modelName := FLASH, thinkingBudget := 0, delay := 1000\<rparr>
               = ?st1"
    using first by (simp add: afterCall_def initialState_def Let_def)
  have step1: "loop prov ?cs ?instr ?tls ?st0 = loop prov ?cs ?instr ?tls ?st1"
  proof -
    have "loop prov ?cs ?instr ?tls ?st0
            = loop prov ?cs ?instr ?tls
                ((afterCall prov ?cs ?instr ?tls ?st0)\<lparr>modelName := FLASH, thinkingBudget := 0, delay := 1000\<rparr>)"
      using first retry
      by (subst loop_step) (simp_all add: initialState_def maxAttempts_def)
    then show ?thesis by (simp only: st1)
  qed
  have run: "?r = (let out = loop prov ?cs ?instr ?tls ?st1
                   in \<lparr>result = fst out, final = pstate (snd out), events = trace (snd out)\<rparr>)"
    by (simp add: generateResponse_loop[OF key] step1)
  let ?out2 = "prov mid ?reqFlash"
  let ?st2 = "afterCall prov ?cs ?instr ?tls ?st1"
  have tr2: "trace ?st2 = [Call ?reqPro (Inl e), Call ?reqFlash (fst ?out2)]"
    and at2: "attempts ?st2 = 2" and mn2: "modelName ?st2 \<noteq> PRO" and ps2: "pstate ?st2 = snd ?out2"
    by (simp_all add: afterCall_def Let_def FLASH_neq_PRO)
  have ev: "events ?r = trace (snd (loop prov ?cs ?instr ?tls ?st1))"
    by (simp add: run Let_def)
  have second: "\<exists>rest. events ?r = Call ?reqPro (Inl e) # Call ?reqFlash (fst ?out2) # rest"
  proof (cases "fst ?out2")
    case (Inr resp)
    then have eq: "loop prov ?cs ?instr ?tls ?st1 = (Inr (normalizeResponse resp), ?st2)"
      by (subst loop_step) (simp_all add: maxAttempts_def)
    show ?thesis unfolding ev eq snd_conv tr2 by simp
  next
    case (Inl e2)
    show ?thesis
    proof (cases "retryable e2")
      case True
      let ?st3 = "?st2\<lparr>trace := trace ?st2 @ [Wait (delay ?st1)], delay := delay ?st1 * (3 / 2)\<rparr>"
      have eq: "loop prov ?cs ?instr ?tls ?st1 = loop prov ?cs ?instr ?tls ?st3"
        using Inl True FLASH_neq_PRO by (subst loop_step) (simp_all add: maxAttempts_def)
      have "endsWith ?st3 (loop prov ?cs ?instr ?tls ?st3)"
        using at2 mn2 by (intro loop_endsWith) (simp_all add: maxAttempts_def)
      then obtain post where p: "trace (snd (loop prov ?cs ?instr ?tls ?st3)) = trace ?st3 @ post"
        unfolding endsWith_def by blast
      have tr3: "trace ?st3 = [Call ?reqPro (Inl e), Call ?reqFlash (fst ?out2), Wait 1000]"
        by (simp add: afterCall_def Let_def)
      show ?thesis unfolding ev eq p tr3 by simp
    next
      case False
      then have eq: "loop prov ?cs ?instr ?tls ?st1 = (Inl e2, ?st2)"
        using Inl by (subst loop_step) (simp_all add: maxAttempts_def)
      show ?thesis unfolding ev eq snd_conv tr2 by simp
    qed
  qed
  have success: "\<forall>resp s2. ?out2 = (Inr resp, s2)
      \<longrightarrow> ?r = \<lparr>result = Inr (normalizeResponse resp), final = s2,
                 events = [Call ?reqPro (Inl e), Call ?reqFlash (Inr resp)]\<rparr>"
  proof (intro allI impI)
    fix resp s2
    assume ok: "?out2 = (Inr resp, s2)"
    then have eq: "loop prov ?cs ?instr ?tls ?st1 = (Inr (normalizeResponse resp), ?st2)"
      by (subst loop_step) (simp_all add: maxAttempts_def)
    show "?r = \<lparr>result = Inr (normalizeResponse resp), final = s2,
                 events = [Call ?reqPro (Inl e), Call ?reqFlash (Inr resp)]\<rparr>"
      unfolding run eq Let_def fst_conv snd_conv tr2 ps2 ok by simp
  qed
  show ?thesis
    by (rule conjI[OF general conjI[OF run conjI[OF second success]]])
qed

theorem downgrade_on_premium_witness:
  "\<not> noApiKey (Some ''key'') \<and> retryable err429 \<and>
   scripted [Inl err429, Inr okResponse] 0
     (buildRequest PRO 8192 (mapMessagesToContent []) (noInstructions GENERAL) (buildTools False))
     = (Inl err429, 1) \<and>
   generateResponse (Some ''key'') noInstructions (scripted [Inl err429, Inr okResponse]) 0 []
       GENERAL LevelDeep False
     = \<lparr>result = Inr (normalizeResponse okResponse), final = 2,
        events = [Call (buildRequest PRO 8192 (mapMessagesToContent []) (noInstructions GENERAL)
                     (buildTools False)) (Inl err429),
                  Call (buildRequest FLASH 0 (mapMessagesToContent []) (noInstructions GENERAL)
                     (buildTools False)) (Inr okResponse)]\<rparr>"
proof -
  have h1: "\<not> noApiKey (Some ''key'')" by (simp add: noApiKey_def)
  have h2: "scripted [Inl err429, Inr okResponse] 0
     (buildRequest PRO 8192 (mapMessagesToContent []) (noInstructions GENERAL) (buildTools False))
     = (Inl err429, 1)"
    by (simp add: scripted_def)
  have h3: "scripted [Inl err429, Inr okResponse] 1
     (buildRequest FLASH 0 (mapMessagesToContent []) (noInstructions GENERAL) (buildTools False))
     = (Inr okResponse, 2)"
    by (simp add: scripted_def)
  from downgrade_on_premium[where apiKey = "Some ''key''" and instructions = noInstructions
      and prov = "scripted [Inl err429, Inr okResponse]" and init = 0 and history = "[]"
      and currentSubject = GENERAL and useSearch = False and e = err429 and mid = 1,
      OF h1 h2 retryable_err429] h3
  show ?thesis using h1 h2 retryable_err429 by blast
qed

section \<open>Fatal errors\<close>

text \<open>
  C5: with an API key, a provider error that is not retryable (neither rate-limit nor
  overload classified) ends the run where it occurs: no event follows the call that threw
  it, and the same error value is thrown to the caller. When it is the first call that
  throws it, the provider has been called exactly once and nothing was waited for.
\<close>

theorem fatal_error_propagates:
  fixes prov :: "'s provider"
  assumes key: "\<not> noApiKey apiKey"
  shows "(\<forall>pre req e post.
            events (generateResponse apiKey instructions prov init history currentSubject level useSearch)
              = pre @ Call req (Inl e) # post \<and> \<not> retryable e
            \<longrightarrow> post = [] \<and>
                result (generateResponse apiKey instructions prov init history currentSubject level useSearch)
                  = Inl e)
       \<and> (\<forall>e mid.
            prov init (buildRequest (fst (selectModel level)) (snd (selectModel level))
                         (mapMessagesToContent history) (instructions currentSubject)
                         (buildTools useSearch)) = (Inl e, mid) \<and> \<not> retryable e
            \<longrightarrow> generateResponse apiKey instructions prov init history currentSubject level useSearch
                  = \<lparr>result = Inl e, final = mid,
                     events = [Call (buildRequest (fst (selectModel level)) (snd (selectModel level))
                                  (mapMessagesToContent history) (instructions currentSubject)
                                  (buildTools useSearch)) (Inl e)]\<rparr>)"
proof -
  let ?r = "generateResponse apiKey instructions prov init history currentSubject level useSearch"
  let ?cs = "mapMessagesToContent history"
  let ?instr = "instructions currentSubject"
  let ?tls = "buildTools useSearch"
  let ?req = "buildRequest (fst (selectModel level)) (snd (selectModel level)) ?cs ?instr ?tls"
  let ?st0 = "initialState level init :: 's loop_state"
  have anywhere: "\<forall>pre req e post.
      events ?r = pre @ Call req (Inl e) # post \<and> \<not> retryable e \<longrightarrow> post = [] \<and> result ?r = Inl e"
  proof (intro allI impI, elim conjE)
    fix pre req e post
    assume ev: "events ?r = pre @ Call req (Inl e) # post" and fatal: "\<not> retryable e"
    from generateResponse_endsWith[OF key, of instructions prov init history currentSubject level useSearch]
    obtain pre' req' out' where h: "events ?r = pre' @ [Call req' out']" "retriedOnly pre'"
      "(case out' of
          Inr resp \<Rightarrow> result ?r = Inr (normalizeResponse resp)
        | Inl e \<Rightarrow>
            if retryable e then result ?r = Inl RATE_LIMITED \<and> length (calls (pre' @ [Call req' out'])) = maxAttempts
            else result ?r = Inl e)"
      by blast
    have last: "post = []"
    proof (rule ccontr)
      assume "post \<noteq> []"
      then obtain post' x where "post = post' @ [x]"
        by (metis rev_exhaust)
      then have "pre' = pre @ Call req (Inl e) # post'"
        using ev h(1) by simp
      then have "retryable e"
        using h(2) retriedOnly_mid by blast
      then show False using fatal by simp
    qed
    then have "out' = Inl e"
      using ev h(1) by simp
    then have "result ?r = Inl e"
      using h(3) fatal by simp
    then show "post = [] \<and> result ?r = Inl e"
      using last by simp
  qed
  have first: "\<forall>e mid. prov init ?req = (Inl e, mid) \<and> \<not> retryable e
      \<longrightarrow> ?r = \<lparr>result = Inl e, final = mid, events = [Call ?req (Inl e)]\<rparr>"
  proof (intro allI impI, elim conjE)
    fix e mid
    assume call: "prov init ?req = (Inl e, mid)" and fatal: "\<not> retryable e"
    have "loop prov ?cs ?instr ?tls ?st0 = (Inl e, afterCall prov ?cs ?instr ?tls ?st0)"
      using call fatal
      by (subst loop_step) (simp_all add: initialState_def maxAttempts_def)
    moreover have "trace (afterCall prov ?cs ?instr ?tls ?st0) = [Call ?req (Inl e)]"
      "pstate (afterCall prov ?cs ?instr ?tls ?st0) = mid"
      using call by (simp_all add: afterCall_def initialState_def Let_def)
    ultimately show "?r = \<lparr>result = Inl e, final = mid, events = [Call ?req (Inl e)]\<rparr>"
      by (simp add: generateResponse_loop[OF key])
  qed
  show ?thesis
    by (rule conjI[OF anywhere first])
qed

theorem fatal_error_propagates_witness:
  "\<not> noApiKey (Some ''key'') \<and> \<not> retryable err400 \<and>
   generateResponse (Some ''key'') noInstructions (alwaysFailing err400) 0 [] MATH LevelDeep True
     = \<lparr>result = Inl err400, final = 1,
        events = [Call (buildRequest PRO 8192 [] (noInstructions MATH) [GoogleSearch]) (Inl err400)]\<rparr>"
proof -
  have h: "\<not> noApiKey (Some ''key'')" by (simp add: noApiKey_def)
  have c: "alwaysFailing err400 0
             (buildRequest (fst (selectModel LevelDeep)) (snd (selectModel LevelDeep))
                (mapMessagesToContent []) (noInstructions MATH) (buildTools True))
           = (Inl err400, 1)"
    by (simp add: alwaysFailing_def)
  from fatal_error_propagates[where apiKey = "Some ''key''" and instructions = noInstructions
      and prov = "alwaysFailing err400" and init = 0 and history = "[]" and currentSubject = MATH
      and level = LevelDeep and useSearch = True, OF h] c not_retryable_err400
  have "generateResponse (Some ''key'') noInstructions (alwaysFailing err400) 0 [] MATH LevelDeep True
     = \<lparr>result = Inl err400, final = 1,
        events = [Call (buildRequest (fst (selectModel LevelDeep)) (snd (selectModel LevelDeep))
                (mapMessagesToContent []) (noInstructions MATH) (buildTools True)) (Inl err400)]\<rparr>"
    by blast
  then show ?thesis
    using h not_retryable_err400 by (simp add: mapMessagesToContent_def buildTools_def)
qed

section \<open>The request\<close>

text \<open>With a key, the first event of a run is the call with the request built from the inputs.\<close>

lemma first_event:
  fixes prov :: "'s provider"
  assumes key: "\<not> noApiKey apiKey"
  shows "\<exists>rest.
     events (generateResponse apiKey instructions prov init history currentSubject level useSearch)
       = Call (buildRequest (fst (selectModel level)) (snd (selectModel level))
                 (mapMessagesToContent history) (instructions currentSubject) (buildTools useSearch))
              (fst (prov init (buildRequest (fst (selectModel level)) (snd (selectModel level))
                 (mapMessagesToContent history) (instructions currentSubject) (buildTools useSearch))))
         # rest"
proof -
  let ?r = "generateResponse apiKey instructions prov init history currentSubject level useSearch"
  let ?cs = "mapMessagesToContent history"
  let ?instr = "instructions currentSubject"
  let ?tls = "buildTools useSearch"
  let ?req = "buildRequest (fst (selectModel level)) (snd (selectModel level)) ?cs ?instr ?tls"
  let ?st0 = "initialState level init :: 's loop_state"
  let ?st1 = "afterCall prov ?cs ?instr ?tls ?st0"
  let ?out = "fst (prov init ?req)"
  have ev: "events ?r = trace (snd (loop prov ?cs ?instr ?tls ?st0))"
    by (simp add: generateResponse_loop[OF key] Let_def)
  have tr1: "trace ?st1 = [Call ?req ?out]" and at1: "attempts ?st1 = Suc 0"
    and mn1: "modelName ?st1 = modelName ?st0" and at0: "attempts ?st0 < maxAttempts"
    and req0: "buildRequest (modelName ?st0) (thinkingBudget ?st0) ?cs ?instr ?tls = ?req"
    and ps0: "pstate ?st0 = init" and at00: "attempts ?st0 = 0"
    by (simp_all add: afterCall_def initialState_def Let_def maxAttempts_def)
  have cont: "\<exists>rest. trace (snd (loop prov ?cs ?instr ?tls st')) = [Call ?req ?out] @ rest"
    if "attempts st' = Suc 0" "modelName st' \<noteq> PRO" "trace st' = [Call ?req ?out] @ more"
    for st' :: "'s loop_state" and more
  proof -
    have "endsWith st' (loop prov ?cs ?instr ?tls st')"
      using that by (intro loop_endsWith) (simp_all add: maxAttempts_def)
    then show ?thesis
      unfolding endsWith_def using that(3) by auto
  qed
  have out0: "fst (prov (pstate ?st0) (buildRequest (modelName ?st0) (thinkingBudget ?st0) ?cs ?instr ?tls))
                = ?out"
    by (simp only: req0 ps0)
  have "\<exists>rest. trace (snd (loop prov ?cs ?instr ?tls ?st0)) = [Call ?req ?out] @ rest"
  proof (cases ?out)
    case (Inr resp)
    then have "loop prov ?cs ?instr ?tls ?st0 = (Inr (normalizeResponse resp), ?st1)"
      using at0 out0 by (subst loop_step) simp_all
    then show ?thesis using tr1 by simp
  next
    case (Inl err)
    consider (down) "retryable err" "modelName ?st0 = PRO"
      | (wait) "retryable err" "modelName ?st0 \<noteq> PRO"
      | (fatal) "\<not> retryable err"
      by blast
    then show ?thesis
    proof cases
      case down
      let ?st2 = "?st1\<lparr>modelName := FLASH, thinkingBudget := 0, delay := 1000\<rparr>"
      have "loop prov ?cs ?instr ?tls ?st0 = loop prov ?cs ?instr ?tls ?st2"
        using at0 out0 Inl down by (subst loop_step) simp_all
      moreover have "\<exists>rest. trace (snd (loop prov ?cs ?instr ?tls ?st2)) = [Call ?req ?out] @ rest"
        using at1 tr1 FLASH_neq_PRO by (intro cont[where more = "[]"]) simp_all
      ultimately show ?thesis by simp
    next
      case wait
      let ?st2 = "?st1\<lparr>trace := trace ?st1 @ [Wait (delay ?st0)], delay := delay ?st0 * (3 / 2)\<rparr>"
      have "loop prov ?cs ?instr ?tls ?st0 = loop prov ?cs ?instr ?tls ?st2"
        using at0 at00 out0 Inl wait by (subst loop_step) (simp_all add: maxAttempts_def)
      moreover have "\<exists>rest. trace (snd (loop prov ?cs ?instr ?tls ?st2)) = [Call ?req ?out] @ rest"
        using at1 tr1 mn1 wait by (intro cont[where more = "[Wait (delay ?st0)]"]) simp_all
      ultimately show ?thesis by simp
    next
      case fatal
      then have "loop prov ?cs ?instr ?tls ?st0 = (Inl err, ?st1)"
        using at0 out0 Inl by (subst loop_step) simp_all
      then show ?thesis using tr1 by simp
    qed
  qed
  then show ?thesis
    unfolding ev by simp
qed

text \<open>
  C6: the switch selects (fast model, 0) for none, (fast model, 2048) for moderate and
  (premium model, 8192) for deep; and, with an API key, for every history, subject,
  thinking level and search flag the first request issued carries that model, the
  translated history, the subject's system instruction, the reasoning budget (absent for
  none, where it is 0), and the tools field: the web-search tool alone when
  \<open>useSearch\<close> holds, and no tools field at all (not an empty list) otherwise.
\<close>

theorem request_translation:
  fixes prov :: "'s provider"
  assumes key: "\<not> noApiKey apiKey"
  shows "selectModel LevelNone = (''gemini-2.5-flash'', 0)
       \<and> selectModel LevelModerate = (''gemini-2.5-flash'', 2048)
       \<and> selectModel LevelDeep = (''gemini-3-pro-preview'', 8192)
       \<and> (\<exists>out rest.
            events (generateResponse apiKey instructions prov init history currentSubject level useSearch)
              = Call \<lparr>model = (case level of
                                  LevelNone \<Rightarrow> ''gemini-2.5-flash''
                                | LevelModerate \<Rightarrow> ''gemini-2.5-flash''
                                | LevelDeep \<Rightarrow> ''gemini-3-pro-preview''),
                      contents = mapMessagesToContent history,
                      config = \<lparr>systemInstruction = instructions currentSubject,
                                thinkingConfig = (case level of
                                                    LevelNone \<Rightarrow> None
                                                  | LevelModerate \<Rightarrow> Some 2048
                                                  | LevelDeep \<Rightarrow> Some 8192),
                                tools = (if useSearch then Some [GoogleSearch] else None)\<rparr>\<rparr>
                     out
                # rest)"
proof -
  have req: "buildRequest (fst (selectModel level)) (snd (selectModel level))
                 (mapMessagesToContent history) (instructions currentSubject) (buildTools useSearch)
      = \<lparr>model = (case level of
                                  LevelNone \<Rightarrow> ''gemini-2.5-flash''
                                | LevelModerate \<Rightarrow> ''gemini-2.5-flash''
                                | LevelDeep \<Rightarrow> ''gemini-3-pro-preview''),
                      contents = mapMessagesToContent history,
                      config = \<lparr>systemInstruction = instructions currentSubject,
                                thinkingConfig = (case level of
                                                    LevelNone \<Rightarrow> None
                                                  | LevelModerate \<Rightarrow> Some 2048
                                                  | LevelDeep \<Rightarrow> Some 8192),
                                tools = (if useSearch then Some [GoogleSearch] else None)\<rparr>\<rparr>"
    by (cases level) (simp_all add: buildRequest_def buildTools_def FLASH_def PRO_def)
  have tbl: "selectModel LevelNone = (''gemini-2.5-flash'', 0)"
    "selectModel LevelModerate = (''gemini-2.5-flash'', 2048)"
    "selectModel LevelDeep = (''gemini-3-pro-preview'', 8192)"
    by (simp_all add: FLASH_def PRO_def)
  from first_event[OF key, of instructions prov init history currentSubject level useSearch]
  have "\<exists>out rest.
            events (generateResponse apiKey instructions prov init history currentSubject level useSearch)
              = Call \<lparr>model = (case level of
                                  LevelNone \<Rightarrow> ''gemini-2.5-flash''
                                | LevelModerate \<Rightarrow> ''gemini-2.5-flash''
                                | LevelDeep \<Rightarrow> ''gemini-3-pro-preview''),
                      contents = mapMessagesToContent history,
                      config = \<lparr>systemInstruction = instructions currentSubject,
                                thinkingConfig = (case level of
                                                    LevelNone \<Rightarrow> None
                                                  | LevelModerate \<Rightarrow> Some 2048
                                                  | LevelDeep \<Rightarrow> Some 8192),
                                tools = (if useSearch then Some [GoogleSearch] else None)\<rparr>\<rparr>
                     out
                # rest"
    unfolding req by blast
  with tbl show ?thesis by blast
qed

theorem request_translation_witness:
  "\<not> noApiKey (Some ''key'') \<and>
   (\<exists>out rest.
      events (generateResponse (Some ''key'') noInstructions (scripted [Inr okResponse]) 0 [] MATH LevelModerate False)
        = Call \<lparr>model = ''gemini-2.5-flash'', contents = [],
                config = \<lparr>systemInstruction = noInstructions MATH, thinkingConfig = Some 2048,
                          tools = None\<rparr>\<rparr> out # rest)"
proof -
  have h: "\<not> noApiKey (Some ''key'')" by (simp add: noApiKey_def)
  from request_translation[where apiKey = "Some ''key''" and instructions = noInstructions
      and prov = "scripted [Inr okResponse]" and init = 0 and history = "[]" and currentSubject = MATH
      and level = LevelModerate and useSearch = False, OF h]
  show ?thesis using h by (simp add: mapMessagesToContent_def FLASH_def PRO_def)
qed

section \<open>Empty histories and messages without parts\<close>

text \<open>
  C7, as the code has it: \<^verbatim>\<open>generateResponse\<close> does not validate the history. With an
  API key, for every history the request is issued with the history translated as it is:
  an empty history gives an empty contents list, a message with zero parts gives a
  content entry with an empty parts list; and when the provider answers, its normalized
  text is returned. There is no InvalidInput failure.
\<close>

theorem history_not_validated:
  fixes prov :: "'s provider"
  assumes key: "\<not> noApiKey apiKey"
  shows "(\<exists>rest.
            events (generateResponse apiKey instructions prov init history currentSubject level useSearch)
              = Call (buildRequest (fst (selectModel level)) (snd (selectModel level))
                        (mapMessagesToContent history) (instructions currentSubject)
                        (buildTools useSearch))
                     (fst (prov init (buildRequest (fst (selectModel level)) (snd (selectModel level))
                        (mapMessagesToContent history) (instructions currentSubject)
                        (buildTools useSearch))))
                # rest)
       \<and> (history = [] \<longrightarrow> mapMessagesToContent history = [])
       \<and> length (mapMessagesToContent history) = length history
       \<and> (\<forall>i < length history.
             msg_parts (history ! i) = []
             \<longrightarrow> mapMessagesToContent history ! i = Content (msg_role (history ! i)) [])
       \<and> (\<forall>resp mid.
            prov init (buildRequest (fst (selectModel level)) (snd (selectModel level))
                         (mapMessagesToContent history) (instructions currentSubject)
                         (buildTools useSearch)) = (Inr resp, mid)
            \<longrightarrow> generateResponse apiKey instructions prov init history currentSubject level useSearch
                  = \<lparr>result = Inr (normalizeResponse resp), final = mid,
                     events = [Call (buildRequest (fst (selectModel level)) (snd (selectModel level))
                                  (mapMessagesToContent history) (instructions currentSubject)
                                  (buildTools useSearch)) (Inr resp)]\<rparr>)"
proof -
  let ?r = "generateResponse apiKey instructions prov init history currentSubject level useSearch"
  let ?cs = "mapMessagesToContent history"
  let ?instr = "instructions currentSubject"
  let ?tls = "buildTools useSearch"
  let ?req = "buildRequest (fst (selectModel level)) (snd (selectModel level)) ?cs ?instr ?tls"
  let ?st0 = "initialState level init :: 's loop_state"
  have sent: "\<exists>rest. events ?r = Call ?req (fst (prov init ?req)) # rest"
    by (rule first_event[OF key])
  have empty: "history = [] \<longrightarrow> ?cs = []"
    by (simp add: mapMessagesToContent_def)
  have len: "length ?cs = length history"
    by (simp add: mapMessagesToContent_def)
  have noparts: "\<forall>i < length history.
      msg_parts (history ! i) = [] \<longrightarrow> ?cs ! i = Content (msg_role (history ! i)) []"
    by (simp add: mapMessagesToContent_def)
  have answered: "\<forall>resp mid. prov init ?req = (Inr resp, mid)
      \<longrightarrow> ?r = \<lparr>result = Inr (normalizeResponse resp), final = mid, events = [Call ?req (Inr resp)]\<rparr>"
  proof (intro allI impI)
    fix resp mid
    assume call: "prov init ?req = (Inr resp, mid)"
    have "loop prov ?cs ?instr ?tls ?st0 = (Inr (normalizeResponse resp), afterCall prov ?cs ?instr ?tls ?st0)"
      using call by (subst loop_step) (simp_all add: initialState_def maxAttempts_def)
    moreover have "trace (afterCall prov ?cs ?instr ?tls ?st0) = [Call ?req (Inr resp)]"
      "pstate (afterCall prov ?cs ?instr ?tls ?st0) = mid"
      using call by (simp_all add: afterCall_def initialState_def Let_def)
    ultimately show "?r = \<lparr>result = Inr (normalizeResponse resp), final = mid, events = [Call ?req (Inr resp)]\<rparr>"
      by (simp add: generateResponse_loop[OF key])
  qed
  show ?thesis
    by (rule conjI[OF sent conjI[OF empty conjI[OF len conjI[OF noparts answered]]]])
qed

theorem history_not_validated_witness:
  "\<not> noApiKey (Some ''key'') \<and>
   generateResponse (Some ''key'') noInstructions (scripted [Inr okResponse]) 0
       [\<lparr>msg_role = User, msg_parts = [], timestamp = 0, isError = None\<rparr>] GENERAL LevelNone False
     = \<lparr>result = Inr ''ok'', final = 1,
        events = [Call \<lparr>model = ''gemini-2.5-flash'', contents = [Content User []],
                        config = \<lparr>systemInstruction = noInstructions GENERAL,
                                  thinkingConfig = None, tools = None\<rparr>\<rparr>
                    (Inr okResponse)]\<rparr>"
proof -
  have h: "\<not> noApiKey (Some ''key'')" by (simp add: noApiKey_def)
  have c: "scripted [Inr okResponse] 0
             (buildRequest (fst (selectModel LevelNone)) (snd (selectModel LevelNone))
                (mapMessagesToContent [\<lparr>msg_role = User, msg_parts = [], timestamp = 0, isError = None\<rparr>])
                (noInstructions GENERAL) (buildTools False))
           = (Inr okResponse, 1)"
    by (simp add: scripted_def)
  have n: "normalizeResponse okResponse = ''ok''"
    by (simp add: normalizeResponse_def okResponse_def getGroundingChunks_def)
  from history_not_validated[where apiKey = "Some ''key''" and instructions = noInstructions
      and prov = "scripted [Inr okResponse]" and init = 0
      and history = "[\<lparr>msg_role = User, msg_parts = [], timestamp = 0, isError = None\<rparr>]"
      and currentSubject = GENERAL and level = LevelNone and useSearch = False, OF h] c
  have "generateResponse (Some ''key'') noInstructions (scripted [Inr okResponse]) 0
       [\<lparr>msg_role = User, msg_parts = [], timestamp = 0, isError = None\<rparr>] GENERAL LevelNone False
     = \<lparr>result = Inr (normalizeResponse okResponse), final = 1,
        events = [Call (buildRequest (fst (selectModel LevelNone)) (snd (selectModel LevelNone))
                (mapMessagesToContent [\<lparr>msg_role = User, msg_parts = [], timestamp = 0, isError = None\<rparr>])
                (noInstructions GENERAL) (buildTools False)) (Inr okResponse)]\<rparr>"
    by blast
  then show ?thesis
    using h by (simp add: n mapMessagesToContent_def buildTools_def buildRequest_def FLASH_def)
qed

text \<open>
  An empty history, and a history whose only message has no parts: one provider call is
  made and the run returns normally.
\<close>

theorem empty_history_is_sent:
  "\<not> isl (result (generateResponse (Some ''key'') noInstructions (scripted [Inr okResponse]) 0 []
                   GENERAL LevelNone False))
   \<and> length (calls (events (generateResponse (Some ''key'') noInstructions (scripted [Inr okResponse]) 0 []
                   GENERAL LevelNone False))) = 1
   \<and> \<not> isl (result (generateResponse (Some ''key'') noInstructions (scripted [Inr okResponse]) 0
                   [\<lparr>msg_role = User, msg_parts = [], timestamp = 0, isError = None\<rparr>]
                   GENERAL LevelNone False))
   \<and> length (calls (events (generateResponse (Some ''key'') noInstructions (scripted [Inr okResponse]) 0
                   [\<lparr>msg_role = User, msg_parts = [], timestamp = 0, isError = None\<rparr>]
                   GENERAL LevelNone False))) = 1"
  by code_simp

section \<open>Response normalization\<close>

text \<open>The Set of the source is de-duplication in first-seen order.\<close>

lemma foldl_setAdd:
  "foldl setAdd acc xs = acc @ filter (\<lambda>y. y \<notin> set acc) (dedupFirstSeen xs)"
proof (induction xs arbitrary: acc)
  case Nil
  then show ?case by simp
next
  case (Cons x xs)
  show ?case
  proof (cases "x \<in> set acc")
    case True
    then have "filter (\<lambda>y. y \<notin> set acc) (filter (\<lambda>y. y \<noteq> x) (dedupFirstSeen xs))
                 = filter (\<lambda>y. y \<notin> set acc) (dedupFirstSeen xs)"
      by (auto intro: filter_cong)
    then show ?thesis using True Cons.IH[of acc] by (simp add: setAdd_def)
  next
    case False
    have "filter (\<lambda>y. y \<notin> set (acc @ [x])) (dedupFirstSeen xs)
            = filter (\<lambda>y. y \<notin> set acc) (filter (\<lambda>y. y \<noteq> x) (dedupFirstSeen xs))"
      by (auto intro: filter_cong)
    then show ?thesis using False Cons.IH[of "acc @ [x]"] by (simp add: setAdd_def)
  qed
qed

lemma newSet_dedupFirstSeen: "newSet xs = dedupFirstSeen xs"
  by (simp add: newSet_def foldl_setAdd)

lemma set_dedupFirstSeen: "set (dedupFirstSeen xs) = set xs"
  by (induction xs) auto

lemma distinct_dedupFirstSeen: "distinct (dedupFirstSeen xs)"
  by (induction xs) (auto simp: set_dedupFirstSeen)

lemma dedupFirstSeen_map:
  "inj_on f (set xs) \<Longrightarrow> dedupFirstSeen (map f xs) = map f (dedupFirstSeen xs)"
proof (induction xs)
  case Nil
  then show ?case by simp
next
  case (Cons x xs)
  have inj: "inj_on f (set xs)"
    by (rule inj_on_subset[OF Cons.prems]) auto
  have IH: "dedupFirstSeen (map f xs) = map f (dedupFirstSeen xs)"
    by (rule Cons.IH[OF inj])
  have "filter (\<lambda>y. y \<noteq> f x) (map f (dedupFirstSeen xs))
          = map f (filter (\<lambda>y. y \<noteq> x) (dedupFirstSeen xs))"
    unfolding filter_map
  proof (rule arg_cong[where f = "map f"], rule filter_cong[OF refl])
    fix y assume "y \<in> set (dedupFirstSeen xs)"
    then have yin: "y \<in> set (x # xs)" by (simp add: set_dedupFirstSeen)
    have xin: "x \<in> set (x # xs)" by simp
    show "((\<lambda>y. y \<noteq> f x) \<circ> f) y = (y \<noteq> x)"
      using inj_on_eq_iff[OF Cons.prems yin xin] by simp
  qed
  then show ?case by (simp add: IH)
qed

lemma sourceLine_nonempty: "sourceLine w \<noteq> []"
  by (simp add: sourceLine_def)

lemma chunkSources_webs:
  "chunkSources chunks
     = map sourceLine (concat (map (\<lambda>chunk. case chunk_web chunk of Some w \<Rightarrow> [w] | None \<Rightarrow> []) chunks))"
  unfolding chunkSources_def
  by (induction chunks) (auto simp: sourceLine_nonempty split: option.splits)

text \<open>
  The normalized text: the response's text or the fallback sentence, followed, when there
  is a web reference, by the header and the distinct source lines.
\<close>

lemma normalizeResponse_eq:
  "normalizeResponse r =
     (if webRefs r = [] then baseText r
      else baseText r @ SOURCES_HEADER @ join ''\<newline>'' (dedupFirstSeen (map sourceLine (webRefs r))))"
proof (cases "getGroundingChunks r")
  case None
  then show ?thesis
    by (simp add: normalizeResponse_def webRefs_def baseText_def)
next
  case (Some chunks)
  have "(dedupFirstSeen (map sourceLine ws) = []) = (ws = [])" for ws
    by (cases ws) simp_all
  then show ?thesis
    using Some
    by (simp add: normalizeResponse_def webRefs_def baseText_def Let_def
        newSet_dedupFirstSeen chunkSources_webs)
qed

text \<open>
  C8, as the code has it: for a response with no text (absent or empty) and no grounding
  chunks, the normalized output is the fixed fallback sentence of the code,
  \<^verbatim>\<open>I couldn't generate a text response.\<close>, and so never the empty string.
\<close>

theorem fallback_text:
  assumes "resp_text r = None \<or> resp_text r = Some []"
    and "getGroundingChunks r = None \<or> getGroundingChunks r = Some []"
  shows "normalizeResponse r = ''I couldn't generate a text response.''
       \<and> normalizeResponse r \<noteq> []"
proof -
  have "webRefs r = []"
    using assms(2) by (auto simp: webRefs_def)
  moreover have "baseText r = FALLBACK_TEXT"
    using assms(1) by (auto simp: baseText_def)
  ultimately have "normalizeResponse r = FALLBACK_TEXT"
    by (simp add: normalizeResponse_eq)
  then show ?thesis
    by (simp add: FALLBACK_TEXT_def)
qed

theorem fallback_text_witness:
  "(resp_text emptyResponse = None \<or> resp_text emptyResponse = Some [])
   \<and> (getGroundingChunks emptyResponse = None \<or> getGroundingChunks emptyResponse = Some [])
   \<and> normalizeResponse emptyResponse = ''I couldn't generate a text response.''"
proof -
  have h1: "resp_text emptyResponse = None \<or> resp_text emptyResponse = Some []"
    by (simp add: emptyResponse_def)
  have h2: "getGroundingChunks emptyResponse = None \<or> getGroundingChunks emptyResponse = Some []"
    by (simp add: emptyResponse_def getGroundingChunks_def)
  from fallback_text[OF h1 h2] show ?thesis using h1 h2 by blast
qed

text \<open>The fallback sentence is not the one the specification quotes.\<close>

theorem fallback_text_differs:
  "normalizeResponse emptyResponse \<noteq> ''no response generated''"
  by (simp add: normalizeResponse_def emptyResponse_def getGroundingChunks_def FALLBACK_TEXT_def)

text \<open>
  C9, as the code has it: when the response carries web references, the normalized output
  is the base text, then the separator and Sources header, then the rendered lines
  \<^verbatim>\<open>- [title](uri)\<close> joined by newlines, where the lines are de-duplicated by
  equality of the rendered line, in first-seen order: the lines are distinct and are
  exactly the renderings of the references. When distinct references render to distinct
  lines, this is de-duplication of the (title, uri) pairs in first-seen order.
\<close>

theorem sources_section:
  assumes "webRefs r \<noteq> []"
  shows "normalizeResponse r
           = baseText r @ SOURCES_HEADER @ join ''\<newline>'' (dedupFirstSeen (map sourceLine (webRefs r)))
       \<and> distinct (dedupFirstSeen (map sourceLine (webRefs r)))
       \<and> set (dedupFirstSeen (map sourceLine (webRefs r))) = sourceLine ` set (webRefs r)
       \<and> (inj_on sourceLine (set (webRefs r))
            \<longrightarrow> dedupFirstSeen (map sourceLine (webRefs r)) = map sourceLine (dedupFirstSeen (webRefs r)))"
  using assms
  by (simp add: normalizeResponse_eq distinct_dedupFirstSeen set_dedupFirstSeen dedupFirstSeen_map)

theorem sources_section_witness:
  "webRefs (withChunks ''t'' [webChunk ''A'' ''u'', webChunk ''B'' ''v'', webChunk ''A'' ''u'']) \<noteq> []
   \<and> inj_on sourceLine (set (webRefs (withChunks ''t'' [webChunk ''A'' ''u'', webChunk ''B'' ''v'', webChunk ''A'' ''u''])))
   \<and> normalizeResponse (withChunks ''t'' [webChunk ''A'' ''u'', webChunk ''B'' ''v'', webChunk ''A'' ''u''])
       = ''t'' @ SOURCES_HEADER @ ''- [A](u)\<newline>- [B](v)''"
proof -
  let ?r = "withChunks ''t'' [webChunk ''A'' ''u'', webChunk ''B'' ''v'', webChunk ''A'' ''u'']"
  have w: "webRefs ?r = [\<lparr>title = Some ''A'', uri = Some ''u''\<rparr>, \<lparr>title = Some ''B'', uri = Some ''v''\<rparr>,
                         \<lparr>title = Some ''A'', uri = Some ''u''\<rparr>]"
    by (simp add: webRefs_def withChunks_def webChunk_def getGroundingChunks_def)
  have h1: "webRefs ?r \<noteq> []"
    by (simp add: w)
  have h2: "inj_on sourceLine (set (webRefs ?r))"
    by (auto simp: w inj_on_def sourceLine_def tmpl_def)
  have b: "baseText ?r = ''t''"
    by (simp add: baseText_def withChunks_def)
  from sources_section[OF h1] h2
  have "normalizeResponse ?r
          = baseText ?r @ SOURCES_HEADER @ join ''\<newline>'' (map sourceLine (dedupFirstSeen (webRefs ?r)))"
    by simp
  then have "normalizeResponse ?r = ''t'' @ SOURCES_HEADER @ ''- [A](u)\<newline>- [B](v)''"
    by (simp add: w b sourceLine_def tmpl_def)
  then show ?thesis using h1 h2 by blast
qed

text \<open>
  Two different (title, uri) pairs with the same rendered line: the Sources section has
  one line, not one per distinct pair.
\<close>

theorem sources_not_deduplicated_by_pair:
  "webRefs (withChunks ''t'' [webChunk ''a](b'' ''c'', webChunk ''a'' ''b](c'']) \<noteq> []
   \<and> dedupFirstSeen (webRefs (withChunks ''t'' [webChunk ''a](b'' ''c'', webChunk ''a'' ''b](c'']))
       = [\<lparr>title = Some ''a](b'', uri = Some ''c''\<rparr>, \<lparr>title = Some ''a'', uri = Some ''b](c''\<rparr>]
   \<and> normalizeResponse (withChunks ''t'' [webChunk ''a](b'' ''c'', webChunk ''a'' ''b](c''])
       = ''t'' @ SOURCES_HEADER @ ''- [a](b](c)''
   \<and> normalizeResponse (withChunks ''t'' [webChunk ''a](b'' ''c'', webChunk ''a'' ''b](c''])
       \<noteq> baseText (withChunks ''t'' [webChunk ''a](b'' ''c'', webChunk ''a'' ''b](c''])
           @ SOURCES_HEADER
           @ join ''\<newline>'' (map sourceLine (dedupFirstSeen
               (webRefs (withChunks ''t'' [webChunk ''a](b'' ''c'', webChunk ''a'' ''b](c'']))))"
  by code_simp

section \<open>Translation of parts\<close>

text \<open>
  C10: a part with both an image and a text is translated to the image alone, the text
  having no effect on the result; a part with neither is translated to a text part with
  the empty string; and \<^verbatim>\<open>mapMessagesToContent\<close> translates every message of every
  history, rejecting none.
\<close>

theorem part_translation:
  "(part_inlineData p = Some d \<and> part_text p = Some t
      \<longrightarrow> mapPart p = InlinePart d \<and> mapPart p = mapPart (p\<lparr>part_text := None\<rparr>))
   \<and> (part_inlineData q = None \<and> part_text q = None \<longrightarrow> mapPart q = TextPart [])
   \<and> mapMessagesToContent ms
       = map (\<lambda>m. Content (msg_role m) (map mapPart (msg_parts m))) ms
   \<and> length (mapMessagesToContent ms) = length ms"
  by (auto simp: mapPart_def mapMessagesToContent_def)

theorem part_translation_witness:
  "part_inlineData \<lparr>part_text = Some ''what is this?'',
                    part_inlineData = Some \<lparr>mimeType = ''image/png'', data = ''iVBOR''\<rparr>\<rparr>
     = Some \<lparr>mimeType = ''image/png'', data = ''iVBOR''\<rparr>
   \<and> part_text \<lparr>part_text = Some ''what is this?'',
                part_inlineData = Some \<lparr>mimeType = ''image/png'', data = ''iVBOR''\<rparr>\<rparr>
     = Some ''what is this?''
   \<and> mapPart \<lparr>part_text = Some ''what is this?'',
              part_inlineData = Some \<lparr>mimeType = ''image/png'', data = ''iVBOR''\<rparr>\<rparr>
     = InlinePart \<lparr>mimeType = ''image/png'', data = ''iVBOR''\<rparr>
   \<and> part_inlineData \<lparr>part_text = None, part_inlineData = None\<rparr> = None
   \<and> part_text \<lparr>part_text = None, part_inlineData = None\<rparr> = None
   \<and> mapPart \<lparr>part_text = None, part_inlineData = None\<rparr> = TextPart []"
  using part_translation[where p = "\<lparr>part_text = Some ''what is this?'',
                    part_inlineData = Some \<lparr>mimeType = ''image/png'', data = ''iVBOR''\<rparr>\<rparr>"
      and d = "\<lparr>mimeType = ''image/png'', data = ''iVBOR''\<rparr>" and t = "''what is this?''"
      and q = "\<lparr>part_text = None, part_inlineData = None\<rparr>" and ms = "[]"]
  by simp

end
